theory Spec2Isabelle
  imports Main "HOL-Library.Sublist"
begin

section \<open>Strings and paths\<close>

text \<open>
  Embedding of \<^verbatim>\<open>src/python/unpack_firmware.py\<close>. A \<^verbatim>\<open>pathlib.Path\<close> is kept the way
  pathlib keeps it: as the list of its components below the root. Every path of the
  program is absolute (\<^verbatim>\<open>unpack_firmware\<close> resolves its two arguments, every other path is
  derived from them), so the empty list is the root directory.
\<close>

type_synonym path = "string list"

definition path_str :: "path \<Rightarrow> string" where
  \<comment> \<open>\<^verbatim>\<open>str(path)\<close>\<close>
  "path_str p = (if p = [] then ''/'' else concat (map (\<lambda>c. CHR ''/'' # c) p))"

definition path_name :: "path \<Rightarrow> string" where
  \<comment> \<open>\<^verbatim>\<open>path.name\<close>: the final component, empty for the root\<close>
  "path_name p = (if p = [] then [] else last p)"

definition parent :: "path \<Rightarrow> path" where
  \<comment> \<open>\<^verbatim>\<open>path.parent\<close>; the root is its own parent\<close>
  "parent p = butlast p"

definition joinpath :: "path \<Rightarrow> string \<Rightarrow> path" where
  \<comment> \<open>\<^verbatim>\<open>path / name\<close> for a single component\<close>
  "joinpath p n = p @ [n]"

definition rfind :: "string \<Rightarrow> char \<Rightarrow> int" where
  \<comment> \<open>\<^verbatim>\<open>s.rfind(c)\<close>: the index of the last occurrence, -1 when there is none\<close>
  "rfind s c =
     (if c \<in> set s then int (length s) - 1 - int (length (takeWhile (\<lambda>x. x \<noteq> c) (rev s)))
      else - 1)"

definition name_suffix :: "string \<Rightarrow> string" where
  \<comment> \<open>\<^verbatim>\<open>PurePath.suffix\<close>, on the name: \<^verbatim>\<open>i = name.rfind('.')\<close>,
      \<^verbatim>\<open>name[i:] if 0 < i < len(name) - 1 else ''\<close>\<close>
  "name_suffix n =
     (let i = rfind n (CHR ''.'')
      in if 0 < i \<and> i < int (length n) - 1 then drop (nat i) n else [])"

definition name_stem :: "string \<Rightarrow> string" where
  \<comment> \<open>\<^verbatim>\<open>PurePath.stem\<close>: \<^verbatim>\<open>name[:i] if 0 < i < len(name) - 1 else name\<close>\<close>
  "name_stem n =
     (let i = rfind n (CHR ''.'')
      in if 0 < i \<and> i < int (length n) - 1 then take (nat i) n else n)"

definition stem :: "path \<Rightarrow> string" where
  "stem p = name_stem (path_name p)"

text \<open>Python exceptions that the modelled calls can raise.\<close>

datatype exn =
    FileExistsError
  | FileNotFoundError
  | NotADirectoryError
  | IsADirectoryError
  | TooManyLinks
  | SpecialFileError
  | ValueError
  | DecodeError string

definition with_suffix_empty :: "path \<Rightarrow> exn + path" where
  \<comment> \<open>\<^verbatim>\<open>path.with_suffix('')\<close>: ValueError on an empty name; otherwise the old suffix,
      if there is one, is cut off the name\<close>
  "with_suffix_empty p =
     (let name = path_name p
      in if name = [] then Inl ValueError
         else let old_suffix = name_suffix name;
                  name' = (if old_suffix = [] then name @ []
                           else take (length name - length old_suffix) name @ [])
              in Inr (butlast p @ [name']))"

fun is_substring :: "string \<Rightarrow> string \<Rightarrow> bool" where
  \<comment> \<open>\<^verbatim>\<open>x in s\<close> on strings\<close>
  "is_substring x [] = (x = [])"
| "is_substring x (c # cs) = (prefix x (c # cs) \<or> is_substring x cs)"

definition any_in :: "string list \<Rightarrow> string \<Rightarrow> bool" where
  \<comment> \<open>\<^verbatim>\<open>any(x in s for x in xs)\<close>\<close>
  "any_in xs s = list_ex (\<lambda>x. is_substring x s) xs"

definition endswith :: "string \<Rightarrow> string \<Rightarrow> bool" where
  "endswith s x = suffix x s"

definition startswith :: "string \<Rightarrow> string \<Rightarrow> bool" where
  "startswith s x = prefix x s"

definition lower_char :: "char \<Rightarrow> char" where
  "lower_char c =
     (let n = (of_char c :: nat) in if 65 \<le> n \<and> n \<le> 90 then char_of (n + 32) else c)"

definition lower :: "string \<Rightarrow> string" where
  \<comment> \<open>\<^verbatim>\<open>s.lower()\<close> on the ASCII letters\<close>
  "lower s = map lower_char s"

definition is_space :: "char \<Rightarrow> bool" where
  \<comment> \<open>the ASCII characters for which \<^verbatim>\<open>str.isspace\<close> holds\<close>
  "is_space c = (of_char c \<in> {9, 10, 11, 12, 13, 28, 29, 30, 31, 32 :: nat})"

definition strip :: "string \<Rightarrow> string" where
  \<comment> \<open>\<^verbatim>\<open>s.strip()\<close>\<close>
  "strip s = rev (dropWhile is_space (rev (dropWhile is_space s)))"

section \<open>The file system\<close>

text \<open>
  A node is a regular file (its bytes, and whether \<^verbatim>\<open>os.access(f, os.X_OK)\<close> holds for
  it), a directory, a symbolic link (with its target) or a special file (a FIFO, a
  socket or a device). The tree is a map from paths to nodes; the root is always a
  directory. The names \<^verbatim>\<open>.\<close> and \<^verbatim>\<open>..\<close> are no entries of the map: below a directory
  they lead to a directory, elsewhere to nothing, and nothing can be created under such
  a name. Symbolic links are followed in the last component, at most 40 times as the
  kernel does. Failures that depend on permissions are not modelled: a call fails only
  for the shape of the tree. Opening a special file is answered with an error; the
  program opens for reading only what \<^verbatim>\<open>is_file\<close> accepted.
\<close>

datatype node = File string bool | Dir | Symlink path | Special

type_synonym fs = "path \<Rightarrow> node option"

definition dot_name :: "string \<Rightarrow> bool" where
  "dot_name n = (n = ''.'' \<or> n = ''..'')"

fun node_rev :: "fs \<Rightarrow> path \<Rightarrow> node option" where
  \<comment> \<open>the node at a path that is given from its last component to its first\<close>
  "node_rev t [] = Some Dir"
| "node_rev t (n # rp) =
     (if dot_name n then (case node_rev t rp of Some Dir \<Rightarrow> Some Dir | _ \<Rightarrow> None)
      else t (rev (n # rp)))"

definition node_at :: "fs \<Rightarrow> path \<Rightarrow> node option" where
  "node_at t p = node_rev t (rev p)"

fun follow :: "fs \<Rightarrow> nat \<Rightarrow> path \<Rightarrow> path option" where
  "follow t 0 p = None"
| "follow t (Suc n) p =
     (case node_at t p of Some (Symlink q) \<Rightarrow> follow t n q | _ \<Rightarrow> Some p)"

definition resolve :: "fs \<Rightarrow> path \<Rightarrow> path option" where
  "resolve t p = follow t (Suc 40) p"

definition stat :: "fs \<Rightarrow> path \<Rightarrow> node option" where
  \<comment> \<open>the node a path leads to, links followed; None when there is none\<close>
  "stat t p = (case resolve t p of None \<Rightarrow> None | Some q \<Rightarrow> node_at t q)"

definition is_file :: "fs \<Rightarrow> path \<Rightarrow> bool" where
  "is_file t p = (case stat t p of Some (File _ _) \<Rightarrow> True | _ \<Rightarrow> False)"

definition is_dir :: "fs \<Rightarrow> path \<Rightarrow> bool" where
  "is_dir t p = (case stat t p of Some Dir \<Rightarrow> True | _ \<Rightarrow> False)"

definition path_exists :: "fs \<Rightarrow> path \<Rightarrow> bool" where
  "path_exists t p = (stat t p \<noteq> None)"

definition is_symlink :: "fs \<Rightarrow> path \<Rightarrow> bool" where
  "is_symlink t p = (case node_at t p of Some (Symlink _) \<Rightarrow> True | _ \<Rightarrow> False)"

definition access_x :: "fs \<Rightarrow> path \<Rightarrow> bool" where
  \<comment> \<open>\<^verbatim>\<open>os.access(f, os.X_OK)\<close>; the program asks it of files only\<close>
  "access_x t p = (case stat t p of Some (File _ x) \<Rightarrow> x | _ \<Rightarrow> False)"

definition mkdir_exist_ok :: "fs \<Rightarrow> path \<Rightarrow> exn + fs" where
  \<comment> \<open>\<^verbatim>\<open>path.mkdir(exist_ok=True)\<close>: an existing entry is accepted only when it is a
      directory\<close>
  "mkdir_exist_ok t p =
     (if node_at t p \<noteq> None then (if is_dir t p then Inr t else Inl FileExistsError)
      else if dot_name (path_name p) then Inl FileNotFoundError
      else case stat t (parent p) of
             Some Dir \<Rightarrow> Inr (t(p \<mapsto> Dir))
           | Some _ \<Rightarrow> Inl NotADirectoryError
           | None \<Rightarrow> Inl FileNotFoundError)"

function mkdir_parents :: "fs \<Rightarrow> path \<Rightarrow> exn + fs" where
  \<comment> \<open>\<^verbatim>\<open>path.mkdir(parents=True, exist_ok=True)\<close>\<close>
  "mkdir_parents t p =
     (case mkdir_exist_ok t p of
        Inr t' \<Rightarrow> Inr t'
      | Inl e \<Rightarrow>
          if e = FileNotFoundError \<and> p \<noteq> [] then
            (case mkdir_parents t (parent p) of
               Inl e' \<Rightarrow> Inl e'
             | Inr t' \<Rightarrow> mkdir_exist_ok t' p)
          else Inl e)"
  by pat_completeness auto
termination
  by (relation "measure (\<lambda>(t, p). length p)") (auto simp: parent_def)

declare mkdir_parents.simps [simp del]

definition unlink :: "fs \<Rightarrow> path \<Rightarrow> fs" where
  "unlink t p = t(p := None)"

definition rmtree :: "fs \<Rightarrow> path \<Rightarrow> exn + fs" where
  \<comment> \<open>\<^verbatim>\<open>shutil.rmtree\<close>: a directory goes with everything below it; anything else is an
      error\<close>
  "rmtree t d =
     (case node_at t d of
        Some Dir \<Rightarrow> Inr (\<lambda>q. if prefix d q then None else t q)
      | Some _ \<Rightarrow> Inl NotADirectoryError
      | None \<Rightarrow> Inl FileNotFoundError)"

definition open_rb :: "fs \<Rightarrow> path \<Rightarrow> exn + path" where
  \<comment> \<open>opening for reading: the file that the path leads to\<close>
  "open_rb t p =
     (case resolve t p of
        None \<Rightarrow> Inl TooManyLinks
      | Some q \<Rightarrow>
          (case node_at t q of
             Some (File _ _) \<Rightarrow> Inr q
           | Some Dir \<Rightarrow> Inl IsADirectoryError
           | Some Special \<Rightarrow> Inl SpecialFileError
           | _ \<Rightarrow> Inl FileNotFoundError))"

definition open_wb :: "fs \<Rightarrow> path \<Rightarrow> exn + (path \<times> fs)" where
  \<comment> \<open>\<^verbatim>\<open>open(p, 'wb')\<close>: an existing file is truncated, a missing one is created in an
      existing directory; \<^verbatim>\<open>.\<close> and \<^verbatim>\<open>..\<close> are directories or lead nowhere\<close>
  "open_wb t p =
     (case resolve t p of
        None \<Rightarrow> Inl TooManyLinks
      | Some q \<Rightarrow>
          (case node_at t q of
             Some (File _ x) \<Rightarrow> Inr (q, t(q \<mapsto> File [] x))
           | Some Dir \<Rightarrow> Inl IsADirectoryError
           | Some (Symlink _) \<Rightarrow> Inl TooManyLinks
           | Some Special \<Rightarrow> Inl SpecialFileError
           | None \<Rightarrow>
               if dot_name (path_name q) then Inl FileNotFoundError
               else (case stat t (parent q) of
                       Some Dir \<Rightarrow> Inr (q, t(q \<mapsto> File [] False))
                     | Some _ \<Rightarrow> Inl NotADirectoryError
                     | None \<Rightarrow> Inl FileNotFoundError)))"

definition read_bytes :: "fs \<Rightarrow> path \<Rightarrow> string" where
  "read_bytes t q = (case node_at t q of Some (File b _) \<Rightarrow> b | _ \<Rightarrow> [])"

definition write_bytes :: "fs \<Rightarrow> path \<Rightarrow> string \<Rightarrow> fs" where
  "write_bytes t q d = (case t q of Some (File b x) \<Rightarrow> t(q \<mapsto> File (b @ d) x) | _ \<Rightarrow> t)"

section \<open>The environment and the program state\<close>

text \<open>
  What the program does not compute itself is a parameter of the model: the outcome of
  every subprocess (on the command line that the program builds, which may change the
  file system), \<^verbatim>\<open>shutil.which\<close>, the gzip decoder, \<^verbatim>\<open>tarfile\<close>, and the directory
  listings. \<^verbatim>\<open>rglob\<close> is a lazy generator: its value here is the sequence of paths that it
  yields while the loop over it runs. Nothing is assumed of these parameters unless a
  theorem says so.
\<close>

record completed =
  returncode :: int
  stdout :: string
  stderr :: string

record world =
  subprocess_run :: "string \<Rightarrow> path option \<Rightarrow> fs \<Rightarrow> completed \<times> fs"
  which :: "string \<Rightarrow> bool"
  gzip_decode :: "string \<Rightarrow> string \<times> exn option"
  tar_extractall :: "path \<Rightarrow> path \<Rightarrow> fs \<Rightarrow> fs \<times> exn option"
  rglob :: "fs \<Rightarrow> path \<Rightarrow> path list"
  iterdir :: "fs \<Rightarrow> path \<Rightarrow> path list"
  cwd :: path

text \<open>One constructor for each \<^verbatim>\<open>print\<close> of the source, with the values it formats.\<close>

datatype msg =
    Cmd string
  | ErrCmdFailed int
  | ErrStderr string
  | ErrToolMissing string
  | InfoChecking path
  | InfoFileType string
  | InfoGzip path
  | WarnGzip exn
  | InfoTar path
  | WarnTar exn
  | InfoSquashfs path
  | InfoSquashfsOk string
  | WarnToolFailed string
  | WarnSquashfs path
  | InfoJffs2 path
  | WarnJefferson
  | InfoCpio path
  | InfoRemoving path
  | InfoUnpacking path
  | InfoOutputDir path
  | InfoBinwalk
  | WarnBinwalk
  | WarnNoExtracted
  | InfoFoundDirs "string list"
  | InfoSearching
  | InfoProcessing path
  | InfoCollecting
  | InfoFoundCount nat
  | InfoListSaved path
  | ErrWriteList exn
  | InfoListSavedCwd
  | ErrListFailed exn
  | InfoCompleted path

text \<open>
  The state: the file system, what has been printed, and a history variable that
  records each call of \<^verbatim>\<open>extract_nested_archives\<close> made by \<^verbatim>\<open>recursive_extract\<close> with the
  recursion depth of the caller. The history variable is never read by the program.
\<close>

record state =
  fs :: fs
  printed :: "msg list"
  visits :: "(nat \<times> path) list"

datatype 'a result = Ok 'a | Raise exn

definition say :: "msg \<Rightarrow> state \<Rightarrow> state" where
  "say m s = s\<lparr>printed := printed s @ [m]\<rparr>"

section \<open>run_cmd and check_tool_available\<close>

definition run_cmd :: "world \<Rightarrow> string \<Rightarrow> bool \<Rightarrow> path option \<Rightarrow> state \<Rightarrow> completed option \<times> state" where
  "run_cmd w cmd check_error dir s =
     (let s1 = say (Cmd cmd) s;
          (res, t) = subprocess_run w cmd dir (fs s1);
          s2 = s1\<lparr>fs := t\<rparr>
      in if check_error \<and> returncode res \<noteq> 0 then
           (None, say (ErrStderr (strip (stderr res))) (say (ErrCmdFailed (returncode res)) s2))
         else (Some res, s2))"

definition check_tool_available :: "world \<Rightarrow> string \<Rightarrow> state \<Rightarrow> bool \<times> state" where
  "check_tool_available w tool s =
     (if \<not> which w tool then (False, say (ErrToolMissing tool) s) else (True, s))"

definition succeeded :: "completed option \<Rightarrow> bool" where
  \<comment> \<open>\<^verbatim>\<open>result and result.returncode == 0\<close>\<close>
  "succeeded r = (case r of None \<Rightarrow> False | Some res \<Rightarrow> returncode res = 0)"

section \<open>extract_nested_archives\<close>

definition quoted :: "path \<Rightarrow> string" where
  \<comment> \<open>\<^verbatim>\<open>'{path}'\<close> inside a command line\<close>
  "quoted p = [CHR 0x27] @ path_str p @ [CHR 0x27]"

definition file_cmd :: "path \<Rightarrow> string" where
  "file_cmd p = ''file -b '' @ quoted p"

definition unsquashfs_cmd :: "path \<Rightarrow> path \<Rightarrow> string" where
  "unsquashfs_cmd subdir p = ''unsquashfs -f -d '' @ quoted subdir @ '' '' @ quoted p"

definition sasquatch_cmd :: "path \<Rightarrow> path \<Rightarrow> string" where
  "sasquatch_cmd subdir p = ''sasquatch -d '' @ quoted subdir @ '' '' @ quoted p"

definition jefferson_cmd :: "path \<Rightarrow> path \<Rightarrow> string" where
  "jefferson_cmd subdir p = ''jefferson -d '' @ quoted subdir @ '' '' @ quoted p"

definition cpio_cmd :: "path \<Rightarrow> path \<Rightarrow> string" where
  "cpio_cmd subdir p = ''cd '' @ quoted subdir @ '' && cpio -idm < '' @ quoted p @ '' 2>/dev/null''"

text \<open>
  The \<^verbatim>\<open>if\<close>/\<^verbatim>\<open>elif\<close> chain on \<^verbatim>\<open>file_type\<close>, in the order of the source: the first test
  that holds selects the branch.
\<close>

datatype FormatSignature = Gzip | Tar | Squashfs | Jffs2 | Cpio | Unknown

definition format_of :: "string \<Rightarrow> FormatSignature" where
  "format_of file_type =
     (if any_in [''.gz'', ''gzip''] file_type then Gzip
      else if any_in [''.tar'', ''tar archive''] file_type then Tar
      else if is_substring ''squashfs'' file_type then Squashfs
      else if is_substring ''jffs2'' file_type then Jffs2
      else if is_substring ''cpio'' file_type then Cpio
      else Unknown)"

definition extract_gzip :: "world \<Rightarrow> path \<Rightarrow> state \<Rightarrow> path option \<times> state" where
  \<comment> \<open>lines 42 to 51. \<^verbatim>\<open>gzip.open\<close> opens the source and reads nothing yet; the output is
      opened, which truncates it; then \<^verbatim>\<open>copyfileobj\<close> reads, decodes and writes. What was
      written before a decoding error stays in the output file.\<close>
  "extract_gzip w file_path s0 =
     (let s = say (InfoGzip file_path) s0
      in case open_rb (fs s) file_path of
           Inl e \<Rightarrow> (None, say (WarnGzip e) s)
         | Inr src \<Rightarrow>
             (case with_suffix_empty file_path of
                Inl e \<Rightarrow> (None, say (WarnGzip e) s)
              | Inr output_name \<Rightarrow>
                  (case open_wb (fs s) output_name of
                     Inl e \<Rightarrow> (None, say (WarnGzip e) s)
                   | Inr (dst, t1) \<Rightarrow>
                       (let (written, err) = gzip_decode w (read_bytes t1 src);
                            s2 = s\<lparr>fs := write_bytes t1 dst written\<rparr>
                        in case err of
                             None \<Rightarrow> (Some output_name, s2)
                           | Some e \<Rightarrow> (None, say (WarnGzip e) s2)))))"

definition extract_tar :: "world \<Rightarrow> path \<Rightarrow> path \<Rightarrow> state \<Rightarrow> path option \<times> state" where
  \<comment> \<open>lines 54 to 60\<close>
  "extract_tar w file_path extract_dir s0 =
     (let s = say (InfoTar file_path) s0;
          (t, err) = tar_extractall w file_path extract_dir (fs s);
          s1 = s\<lparr>fs := t\<rparr>
      in case err of
           None \<Rightarrow> (Some extract_dir, s1)
         | Some e \<Rightarrow> (None, say (WarnTar e) s1))"

fun squashfs_tools :: "world \<Rightarrow> path \<Rightarrow> path \<Rightarrow> string list \<Rightarrow> state \<Rightarrow> path option \<times> state" where
  \<comment> \<open>the loop of lines 68 to 80 over the tools that are left\<close>
  "squashfs_tools w subdir file_path [] s = (None, s)"
| "squashfs_tools w subdir file_path (tool # tools) s =
     (case check_tool_available w tool s of
        (False, s1) \<Rightarrow> squashfs_tools w subdir file_path tools s1
      | (True, s1) \<Rightarrow>
          (let cmd = (if tool = ''unsquashfs'' then unsquashfs_cmd subdir file_path
                      else sasquatch_cmd subdir file_path)
           in case run_cmd w cmd False None s1 of
                (result, s2) \<Rightarrow>
                  if succeeded result then (Some subdir, say (InfoSquashfsOk tool) s2)
                  else squashfs_tools w subdir file_path tools (say (WarnToolFailed tool) s2)))"

definition extract_squashfs :: "world \<Rightarrow> path \<Rightarrow> path \<Rightarrow> state \<Rightarrow> path option result \<times> state" where
  \<comment> \<open>lines 63 to 82; \<^verbatim>\<open>mkdir\<close> is outside every \<^verbatim>\<open>try\<close>\<close>
  "extract_squashfs w file_path extract_dir s0 =
     (let s = say (InfoSquashfs file_path) s0;
          subdir = joinpath extract_dir (stem file_path @ ''_squashfs'')
      in case mkdir_exist_ok (fs s) subdir of
           Inl e \<Rightarrow> (Raise e, s)
         | Inr t \<Rightarrow>
             (case squashfs_tools w subdir file_path [''unsquashfs'', ''sasquatch''] (s\<lparr>fs := t\<rparr>) of
                (Some r, s1) \<Rightarrow> (Ok (Some r), s1)
              | (None, s1) \<Rightarrow> (Ok None, say (WarnSquashfs file_path) s1)))"

definition extract_jffs2 :: "world \<Rightarrow> path \<Rightarrow> path \<Rightarrow> state \<Rightarrow> path option result \<times> state" where
  \<comment> \<open>lines 85 to 95\<close>
  "extract_jffs2 w file_path extract_dir s0 =
     (let s = say (InfoJffs2 file_path) s0;
          subdir = joinpath extract_dir (stem file_path @ ''_jffs2'')
      in case mkdir_exist_ok (fs s) subdir of
           Inl e \<Rightarrow> (Raise e, s)
         | Inr t \<Rightarrow>
             (case check_tool_available w ''jefferson'' (s\<lparr>fs := t\<rparr>) of
                (True, s1) \<Rightarrow>
                  (case run_cmd w (jefferson_cmd subdir file_path) False None s1 of
                     (result, s2) \<Rightarrow>
                       if succeeded result then (Ok (Some subdir), s2) else (Ok None, s2))
              | (False, s1) \<Rightarrow> (Ok None, say WarnJefferson s1)))"

definition extract_cpio :: "world \<Rightarrow> path \<Rightarrow> path \<Rightarrow> state \<Rightarrow> path option result \<times> state" where
  \<comment> \<open>lines 98 to 105\<close>
  "extract_cpio w file_path extract_dir s0 =
     (let s = say (InfoCpio file_path) s0;
          subdir = joinpath extract_dir (stem file_path @ ''_cpio'')
      in case mkdir_exist_ok (fs s) subdir of
           Inl e \<Rightarrow> (Raise e, s)
         | Inr t \<Rightarrow>
             (case run_cmd w (cpio_cmd subdir file_path) False None (s\<lparr>fs := t\<rparr>) of
                (result, s2) \<Rightarrow>
                  if succeeded result then (Ok (Some subdir), s2) else (Ok None, s2)))"

definition dispatch :: "world \<Rightarrow> FormatSignature \<Rightarrow> path \<Rightarrow> path \<Rightarrow> state \<Rightarrow> path option result \<times> state" where
  \<comment> \<open>the branches of lines 41 to 105, by the format that the chain selected\<close>
  "dispatch w sig file_path extract_dir s =
     (case sig of
        Gzip \<Rightarrow> (case extract_gzip w file_path s of (r, s') \<Rightarrow> (Ok r, s'))
      | Tar \<Rightarrow> (case extract_tar w file_path extract_dir s of (r, s') \<Rightarrow> (Ok r, s'))
      | Squashfs \<Rightarrow> extract_squashfs w file_path extract_dir s
      | Jffs2 \<Rightarrow> extract_jffs2 w file_path extract_dir s
      | Cpio \<Rightarrow> extract_cpio w file_path extract_dir s
      | Unknown \<Rightarrow> (Ok None, s))"

definition extract_nested_archives :: "world \<Rightarrow> path \<Rightarrow> path \<Rightarrow> state \<Rightarrow> path option result \<times> state" where
  "extract_nested_archives w file_path extract_dir s0 =
     (let s = say (InfoChecking file_path) s0
      in case run_cmd w (file_cmd file_path) False None s of
           (file_cmd_res, s1) \<Rightarrow>
             if succeeded file_cmd_res then
               (let file_type = lower (stdout (the file_cmd_res));
                    s2 = say (InfoFileType file_type) s1
                in dispatch w (format_of file_type) file_path extract_dir s2)
             else (Ok None, s1))"

section \<open>recursive_extract\<close>

text \<open>
  \<^verbatim>\<open>recursive_extract\<close> returns nothing (Python's None) from its first line and a Boolean
  from its last one: the result is a \<open>bool option\<close>. \<open>extract_loop\<close> is the \<^verbatim>\<open>for\<close> loop of
  lines 117 to 127 over the paths that are left, with \<^verbatim>\<open>extracted_anything\<close> as it stands.
  An exception of \<^verbatim>\<open>extract_nested_archives\<close> is caught nowhere and ends the loop.
\<close>

definition markers :: "string list" where
  "markers = [''_squashfs'', ''_jffs2'', ''_cpio'', ''.extracted'']"

function recursive_extract :: "world \<Rightarrow> path \<Rightarrow> nat \<Rightarrow> nat \<Rightarrow> state \<Rightarrow> bool option result \<times> state"
  and extract_loop :: "world \<Rightarrow> nat \<Rightarrow> nat \<Rightarrow> path list \<Rightarrow> bool \<Rightarrow> state \<Rightarrow> bool result \<times> state"
where
  "recursive_extract w directory max_depth current_depth s =
     (if current_depth \<ge> max_depth then (Ok None, s)
      else case extract_loop w max_depth current_depth (rglob w (fs s) directory) False s of
             (Ok extracted_anything, s') \<Rightarrow> (Ok (Some extracted_anything), s')
           | (Raise e, s') \<Rightarrow> (Raise e, s'))"
| "extract_loop w max_depth current_depth [] extracted_anything s = (Ok extracted_anything, s)"
| "extract_loop w max_depth current_depth (file_path # rest) extracted_anything s =
     (if is_file (fs s) file_path then
        if any_in markers (path_str file_path) then
          extract_loop w max_depth current_depth rest extracted_anything s
        else
          (case extract_nested_archives w file_path (parent file_path)
                  (s\<lparr>visits := visits s @ [(current_depth, file_path)]\<rparr>) of
             (Raise e, s1) \<Rightarrow> (Raise e, s1)
           | (Ok None, s1) \<Rightarrow> extract_loop w max_depth current_depth rest extracted_anything s1
           | (Ok (Some result), s1) \<Rightarrow>
               (case recursive_extract w result max_depth (current_depth + 1) s1 of
                  (Raise e, s2) \<Rightarrow> (Raise e, s2)
                | (Ok _, s2) \<Rightarrow> extract_loop w max_depth current_depth rest True s2))
      else extract_loop w max_depth current_depth rest extracted_anything s)"
  by pat_completeness auto
termination
  by (relation "measures
        [\<lambda>x. case x of
                Inl (w, d, m, c, s) \<Rightarrow> 2 * (m - c)
              | Inr (w, m, c, ps, b, s) \<Rightarrow> 2 * (m - Suc c) + 1,
         \<lambda>x. case x of
                Inl (w, d, m, c, s) \<Rightarrow> 0
              | Inr (w, m, c, ps, b, s) \<Rightarrow> length ps]") auto

section \<open>cleanup_output_dir\<close>

fun cleanup_loop :: "path list \<Rightarrow> state \<Rightarrow> unit result \<times> state" where
  \<comment> \<open>the loop of lines 137 to 145 over the items that are left\<close>
  "cleanup_loop [] s = (Ok (), s)"
| "cleanup_loop (item # items) s =
     (if is_symlink (fs s) item \<or> endswith (path_name item) ''.rar''
         \<or> endswith (path_name item) ''.bin'' then
        (let s1 = say (InfoRemoving item) s
         in if is_symlink (fs s1) item then cleanup_loop items (s1\<lparr>fs := unlink (fs s1) item\<rparr>)
            else if is_file (fs s1) item then cleanup_loop items (s1\<lparr>fs := unlink (fs s1) item\<rparr>)
            else (case rmtree (fs s1) item of
                    Inl e \<Rightarrow> (Raise e, s1)
                  | Inr t \<Rightarrow> cleanup_loop items (s1\<lparr>fs := t\<rparr>)))
      else cleanup_loop items s)"

definition cleanup_output_dir :: "world \<Rightarrow> path \<Rightarrow> state \<Rightarrow> unit result \<times> state" where
  "cleanup_output_dir w output_dir s = cleanup_loop (iterdir w (fs s) output_dir) s"

section \<open>unpack_firmware\<close>

definition executable_indicators :: "string list" where
  "executable_indicators = [''elf'', ''executable'', ''script'', ''shell'']"

fun scan_files :: "world \<Rightarrow> path list \<Rightarrow> path list \<Rightarrow> state \<Rightarrow> path list \<times> state" where
  \<comment> \<open>the inner loop of lines 198 to 210 over the paths that are left, with \<^verbatim>\<open>executables\<close>
      as it stands\<close>
  "scan_files w [] executables s = (executables, s)"
| "scan_files w (f # rest) executables s =
     (if is_file (fs s) f then
        if access_x (fs s) f then
          (case run_cmd w (file_cmd f) False None s of
             (file_cmd_res, s1) \<Rightarrow>
               if succeeded file_cmd_res then
                 (let file_type = lower (stdout (the file_cmd_res))
                  in if any_in executable_indicators file_type
                     then scan_files w rest (executables @ [f]) s1
                     else scan_files w rest executables s1)
               else scan_files w rest executables s1)
        else scan_files w rest executables s
      else scan_files w rest executables s)"

fun scan_roots :: "world \<Rightarrow> path list \<Rightarrow> path list \<Rightarrow> state \<Rightarrow> path list \<times> state" where
  \<comment> \<open>the outer loop of lines 195 to 210\<close>
  "scan_roots w [] executables s = (executables, s)"
| "scan_roots w (root_dir # roots) executables s =
     (if \<not> path_exists (fs s) root_dir then scan_roots w roots executables s
      else case scan_files w (rglob w (fs s) root_dir) executables s of
             (executables', s') \<Rightarrow> scan_roots w roots executables' s')"

fun extract_roots :: "world \<Rightarrow> path list \<Rightarrow> state \<Rightarrow> unit result \<times> state" where
  \<comment> \<open>the loop of lines 187 to 190; \<^verbatim>\<open>max_depth\<close> and \<^verbatim>\<open>current_depth\<close> take their defaults\<close>
  "extract_roots w [] s = (Ok (), s)"
| "extract_roots w (root_dir # roots) s =
     (let s1 = say (InfoProcessing root_dir) s
      in if path_exists (fs s1) root_dir then
           (case recursive_extract w root_dir 5 0 s1 of
              (Raise e, s2) \<Rightarrow> (Raise e, s2)
            | (Ok _, s2) \<Rightarrow> extract_roots w roots s2)
         else extract_roots w roots s1)"

definition glob_extracted :: "world \<Rightarrow> fs \<Rightarrow> path \<Rightarrow> path list" where
  \<comment> \<open>\<^verbatim>\<open>list(out.glob("_*")) + list(out.glob("*.extracted"))\<close>\<close>
  "glob_extracted w t out =
     filter (\<lambda>p. startswith (path_name p) ''_'') (iterdir w t out)
     @ filter (\<lambda>p. endswith (path_name p) ''.extracted'') (iterdir w t out)"

definition manifest_text :: "path list \<Rightarrow> string" where
  "manifest_text executables = concat (map (\<lambda>e. path_str e @ [CHR 0x0A]) executables)"

definition write_text :: "fs \<Rightarrow> path \<Rightarrow> string \<Rightarrow> exn + fs" where
  "write_text t p txt =
     (case open_wb t p of Inl e \<Rightarrow> Inl e | Inr (q, t1) \<Rightarrow> Inr (write_bytes t1 q txt))"

definition save_list :: "world \<Rightarrow> path \<Rightarrow> path list \<Rightarrow> state \<Rightarrow> state" where
  \<comment> \<open>lines 216 to 230\<close>
  "save_list w list_file executables s =
     (case write_text (fs s) list_file (manifest_text executables) of
        Inr t \<Rightarrow> say (InfoListSaved list_file) (s\<lparr>fs := t\<rparr>)
      | Inl e \<Rightarrow>
          (let s1 = say (ErrWriteList e) s
           in case write_text (fs s1) (joinpath (cwd w) ''executables.txt'')
                     (manifest_text executables) of
                Inr t \<Rightarrow> say InfoListSavedCwd (s1\<lparr>fs := t\<rparr>)
              | Inl e2 \<Rightarrow> say (ErrListFailed e2) s1))"

datatype outcome = Returned path | Raised exn | Exited int

definition unpack_steps :: "world \<Rightarrow> path \<Rightarrow> path \<Rightarrow> state \<Rightarrow> outcome \<times> path list \<times> state" where
  \<comment> \<open>lines 164 to 233: what follows the check for binwalk. The list \<^verbatim>\<open>executables\<close> is
      returned beside the outcome.\<close>
  "unpack_steps w fw out s0 =
     (let s1 = say InfoBinwalk s0;
          (result, s2) = run_cmd w (''binwalk -eM '' @ quoted fw) False (Some out) s1;
          s3 = (if result = None \<or> returncode (the result) \<noteq> 0 then say WarnBinwalk s2 else s2);
          found = glob_extracted w (fs s3) out;
          extracted_dirs = (if found = [] then [out] else found);
          s4 = (if found = [] then say WarnNoExtracted s3
                else say (InfoFoundDirs (map path_str extracted_dirs)) s3);
          s5 = say InfoSearching s4
      in case extract_roots w extracted_dirs s5 of
           (Raise e, s6) \<Rightarrow> (Raised e, [], s6)
         | (Ok _, s6) \<Rightarrow>
             (let s7 = say InfoCollecting s6;
                  (executables, s8) = scan_roots w extracted_dirs [] s7;
                  s9 = say (InfoFoundCount (length executables)) s8;
                  list_file = joinpath out ''executables.txt'';
                  s10 = save_list w list_file executables s9
              in (Returned list_file, executables, say (InfoCompleted out) s10)))"

definition unpack_firmware :: "world \<Rightarrow> path \<Rightarrow> path \<Rightarrow> state \<Rightarrow> outcome \<times> path list \<times> state" where
  \<comment> \<open>\<open>fw\<close> and \<open>out\<close> are the two arguments after \<^verbatim>\<open>resolve()\<close>\<close>
  "unpack_firmware w fw out s0 =
     (let s = say (InfoOutputDir out) (say (InfoUnpacking fw) s0)
      in case mkdir_parents (fs s) out of
           Inl e \<Rightarrow> (Raised e, [], s)
         | Inr t \<Rightarrow>
             (case cleanup_output_dir w out (s\<lparr>fs := t\<rparr>) of
                (Raise e, s1) \<Rightarrow> (Raised e, [], s1)
              | (Ok _, s1) \<Rightarrow>
                  (case check_tool_available w ''binwalk'' s1 of
                     (False, s2) \<Rightarrow> (Exited 1, [], s2)
                   | (True, s2) \<Rightarrow> unpack_steps w fw out s2)))"

section \<open>Notions used to state the properties\<close>

text \<open>
  Every call of \<^verbatim>\<open>extract_nested_archives\<close> prints its argument first (line 32): the
  paths that were classified are the paths of these messages, in order.
\<close>

fun checked_paths :: "msg list \<Rightarrow> path list" where
  "checked_paths [] = []"
| "checked_paths (InfoChecking p # ms) = p # checked_paths ms"
| "checked_paths (m # ms) = checked_paths ms"

definition frame :: "state \<Rightarrow> state \<Rightarrow> bool" where
  \<comment> \<open>nothing was classified and nothing recorded between two states\<close>
  "frame s s' =
     (visits s' = visits s \<and> checked_paths (printed s') = checked_paths (printed s))"

definition trace_ok :: "nat \<Rightarrow> nat \<Rightarrow> state \<Rightarrow> state \<Rightarrow> bool" where
  \<comment> \<open>what was classified between two states: at depths from \<open>d\<close> up to but not \<open>N\<close>, and
      no path with a marker\<close>
  "trace_ok N d s s' =
     (\<exists>new. visits s' = visits s @ new
        \<and> checked_paths (printed s') = checked_paths (printed s) @ map snd new
        \<and> list_all (\<lambda>(k, p). d \<le> k \<and> k < N \<and> \<not> any_in markers (path_str p)) new)"

text \<open>
  The format of a file in a file system: what lines 35 to 37 and the tests of the chain
  make of the output of \<^verbatim>\<open>file -b\<close>; Unknown when the command fails.
\<close>

definition classify :: "world \<Rightarrow> fs \<Rightarrow> path \<Rightarrow> FormatSignature" where
  "classify w t p =
     (case subprocess_run w (file_cmd p) None t of
        (res, _) \<Rightarrow> if returncode res = 0 then format_of (lower (stdout res)) else Unknown)"

definition after_inspection :: "world \<Rightarrow> fs \<Rightarrow> path \<Rightarrow> fs" where
  \<comment> \<open>the file system that the \<^verbatim>\<open>file -b\<close> command leaves\<close>
  "after_inspection w t p = snd (subprocess_run w (file_cmd p) None t)"

definition inspection_reads_only :: "world \<Rightarrow> bool" where
  \<comment> \<open>the \<^verbatim>\<open>file -b\<close> commands change nothing in the file system\<close>
  "inspection_reads_only w = (\<forall>p d t. snd (subprocess_run w (file_cmd p) d t) = t)"

text \<open>
  The state in which the dispatch starts: after the two messages of lines 32 and 35, the
  \<^verbatim>\<open>file -b\<close> command and, when it succeeded, the message of line 38.
\<close>

definition inspected :: "world \<Rightarrow> path \<Rightarrow> state \<Rightarrow> state" where
  "inspected w p s =
     (case subprocess_run w (file_cmd p) None (fs s) of
        (res, t) \<Rightarrow>
          (let s1 = (say (Cmd (file_cmd p)) (say (InfoChecking p) s))\<lparr>fs := t\<rparr>
           in if returncode res = 0 then say (InfoFileType (lower (stdout res))) s1 else s1))"




text \<open>
  For \<^verbatim>\<open>cleanup_output_dir\<close>: a regular file is a file that is no link; an entry of the
  output directory is conflicting when line 138 and lines 140 to 143 select it for
  \<^verbatim>\<open>unlink\<close>; a listing of a directory has each entry of the directory once, and nothing
  else.
\<close>

definition proper :: "path \<Rightarrow> bool" where
  \<comment> \<open>a path below the root whose last component is a name, not \<^verbatim>\<open>.\<close> or \<^verbatim>\<open>..\<close>\<close>
  "proper p = (p \<noteq> [] \<and> \<not> dot_name (last p))"



definition is_regular :: "fs \<Rightarrow> path \<Rightarrow> bool" where
  "is_regular t p = (case node_at t p of Some (File _ _) \<Rightarrow> True | _ \<Rightarrow> False)"

definition conflicting :: "fs \<Rightarrow> path \<Rightarrow> bool" where
  "conflicting t i =
     (is_symlink t i
      \<or> is_regular t i \<and> (endswith (path_name i) ''.rar'' \<or> endswith (path_name i) ''.bin''))"

definition listing_ok :: "fs \<Rightarrow> path \<Rightarrow> path list \<Rightarrow> bool" where
  "listing_ok t d items =
     (distinct items
      \<and> list_all (\<lambda>i. proper i \<and> parent i = d \<and> t i \<noteq> None) items
      \<and> (\<forall>p. proper p \<and> parent p = d \<and> t p \<noteq> None \<longrightarrow> p \<in> set items))"

definition removable :: "fs \<Rightarrow> path \<Rightarrow> bool" where
  \<comment> \<open>no special file that line 138 selects: \<^verbatim>\<open>shutil.rmtree\<close> raises on those\<close>
  "removable t i =
     (t i = Some Special \<longrightarrow>
        \<not> (endswith (path_name i) ''.rar'' \<or> endswith (path_name i) ''.bin''))"

subsection \<open>Concrete environments\<close>

text \<open>
  A directory \<^verbatim>\<open>/r\<close> with a gzip file and, below a directory that carries a marker,
  a second one; \<^verbatim>\<open>file -b\<close> answers "gzip compressed data" and the decoder succeeds.
\<close>

definition gz_world :: world where
  "gz_world =
     \<lparr>subprocess_run =
        (\<lambda>cmd dir t. (\<lparr>returncode = 0, stdout = ''gzip compressed data'', stderr = []\<rparr>, t)),
      which = (\<lambda>tool. False),
      gzip_decode = (\<lambda>b. (''payload'', None)),
      tar_extractall = (\<lambda>p d t. (t, None)),
      rglob = (\<lambda>t d. if d = [''r'']
                 then [[''r'', ''a.gz''], [''r'', ''x_squashfs'', ''b.gz'']] else []),
      iterdir = (\<lambda>t d. []),
      cwd = []\<rparr>"

definition gz_state :: state where
  "gz_state =
     \<lparr>fs = [[''r''] \<mapsto> Dir, [''r'', ''a.gz''] \<mapsto> File ''zz'' False,
             [''r'', ''x_squashfs''] \<mapsto> Dir,
             [''r'', ''x_squashfs'', ''b.gz''] \<mapsto> File ''zz'' False],
      printed = [], visits = []\<rparr>"

text \<open>
  A directory \<^verbatim>\<open>/r\<close> with one tar archive: its members go to \<^verbatim>\<open>/r\<close>, which is the
  reported target, so every level of the recursion finds the archive again.
\<close>

definition tar_world :: world where
  "tar_world =
     \<lparr>subprocess_run =
        (\<lambda>cmd dir t. (\<lparr>returncode = 0, stdout = ''POSIX tar archive (GNU)'', stderr = []\<rparr>, t)),
      which = (\<lambda>tool. False),
      gzip_decode = (\<lambda>b. ([], Some (DecodeError ''not gzip''))),
      tar_extractall = (\<lambda>p d t. (t(d @ [''member''] \<mapsto> Dir), None)),
      rglob = (\<lambda>t d. if d = [''r''] then [[''r'', ''a.tar'']] else []),
      iterdir = (\<lambda>t d. []),
      cwd = []\<rparr>"

definition tar_state :: state where
  "tar_state =
     \<lparr>fs = [[''r''] \<mapsto> Dir, [''r'', ''a.tar''] \<mapsto> File ''ustar'' False],
      printed = [], visits = []\<rparr>"

text \<open>
  A squashfs image \<^verbatim>\<open>/r/fw.img\<close>; unsquashfs is not installed, sasquatch is and
  unpacks one file.
\<close>

definition sq_world :: world where
  "sq_world =
     \<lparr>subprocess_run =
        (\<lambda>cmd dir t.
           if prefix ''sasquatch'' cmd
           then (\<lparr>returncode = 0, stdout = [], stderr = []\<rparr>,
                 t([''r'', ''fw_squashfs'', ''init''] \<mapsto> File ''#!/bin/sh'' True))
           else (\<lparr>returncode = 0, stdout = ''Squashfs filesystem, little endian'',
                  stderr = []\<rparr>, t)),
      which = (\<lambda>tool. tool = ''sasquatch''),
      gzip_decode = (\<lambda>b. ([], Some (DecodeError ''not gzip''))),
      tar_extractall = (\<lambda>p d t. (t, None)),
      rglob = (\<lambda>t d. if d = [''r''] then [[''r'', ''fw.img'']] else []),
      iterdir = (\<lambda>t d. []),
      cwd = []\<rparr>"



text \<open>The same image beside a regular file that has the name of the subdirectory.\<close>

definition sq_blocked_state :: state where
  "sq_blocked_state =
     \<lparr>fs = [[''r''] \<mapsto> Dir, [''r'', ''fw.img''] \<mapsto> File ''hsqs'' False,
             [''r'', ''fw_squashfs''] \<mapsto> File ''notes'' False],
      printed = [], visits = []\<rparr>"

text \<open>
  A directory \<^verbatim>\<open>/r\<close> with a file for which \<^verbatim>\<open>file -b\<close> answers "data": no test of
  the chain holds.
\<close>

definition data_world :: world where
  "data_world =
     \<lparr>subprocess_run =
        (\<lambda>cmd dir t. (\<lparr>returncode = 0, stdout = ''data'', stderr = []\<rparr>, t)),
      which = (\<lambda>tool. True),
      gzip_decode = (\<lambda>b. (''payload'', None)),
      tar_extractall = (\<lambda>p d t. (t(d @ [''member''] \<mapsto> Dir), None)),
      rglob = (\<lambda>t d. if d = [''r''] then [[''r'', ''blob'']] else []),
      iterdir = (\<lambda>t d. []),
      cwd = []\<rparr>"

definition data_state :: state where
  "data_state =
     \<lparr>fs = [[''r''] \<mapsto> Dir, [''r'', ''blob''] \<mapsto> File ''0000'' False],
      printed = [], visits = []\<rparr>"







text \<open>
  An output directory with a firmware image, a dangling link, a text file and a
  directory of an earlier run; binwalk is not installed.
\<close>

definition cl_world :: world where
  "cl_world =
     \<lparr>subprocess_run = (\<lambda>cmd dir t. (\<lparr>returncode = 127, stdout = [], stderr = []\<rparr>, t)),
      which = (\<lambda>tool. False),
      gzip_decode = (\<lambda>b. ([], Some (DecodeError ''not gzip''))),
      tar_extractall = (\<lambda>p d t. (t, None)),
      rglob = (\<lambda>t d. []),
      iterdir = (\<lambda>t d. if d = [''out'']
                   then [[''out'', ''old.bin''], [''out'', ''link''], [''out'', ''keep.txt''],
                         [''out'', ''dir.rar'']] else []),
      cwd = []\<rparr>"

definition cl_state :: state where
  "cl_state =
     \<lparr>fs = [[''out''] \<mapsto> Dir, [''out'', ''old.bin''] \<mapsto> File ''fw'' False,
             [''out'', ''link''] \<mapsto> Symlink [''nowhere''],
             [''out'', ''keep.txt''] \<mapsto> File ''k'' False,
             [''out'', ''dir.rar''] \<mapsto> Dir,
             [''out'', ''dir.rar'', ''inner''] \<mapsto> File ''i'' False],
      printed = [], visits = []\<rparr>"

text \<open>
  An output directory with a FIFO that is listed first, a dangling link and a firmware
  image; binwalk is not installed.
\<close>

definition fifo_world :: world where
  "fifo_world =
     cl_world\<lparr>iterdir :=
       (\<lambda>t d. if d = [''out'']
          then [[''out'', ''pipe.bin''], [''out'', ''link''], [''out'', ''old.bin'']] else [])\<rparr>"

definition fifo_state :: state where
  "fifo_state =
     \<lparr>fs = [[''out''] \<mapsto> Dir, [''out'', ''pipe.bin''] \<mapsto> Special,
             [''out'', ''link''] \<mapsto> Symlink [''nowhere''],
             [''out'', ''old.bin''] \<mapsto> File ''fw'' False],
      printed = [], visits = []\<rparr>"

section \<open>What the dispatch leaves alone\<close>

lemma checked_paths_append:
  "checked_paths (xs @ ys) = checked_paths xs @ checked_paths ys"
  by (induction xs rule: checked_paths.induct) auto

lemma say_simps [simp]:
  "fs (say m s) = fs s"
  "visits (say m s) = visits s"
  "printed (say m s) = printed s @ [m]"
  by (simp_all add: say_def)

lemma frame_refl [simp]: "frame s s"
  by (simp add: frame_def)

lemma frame_trans: "frame s s1 \<Longrightarrow> frame s1 s2 \<Longrightarrow> frame s s2"
  by (simp add: frame_def)

lemma frame_say: "checked_paths [m] = [] \<Longrightarrow> frame s s1 \<Longrightarrow> frame s (say m s1)"
  by (simp add: frame_def checked_paths_append)

lemma run_cmd_frame: "run_cmd w c b d s = (r, s') \<Longrightarrow> frame s s'"
  by (auto simp: run_cmd_def Let_def frame_def checked_paths_append
      split: prod.splits if_splits)

lemma check_tool_available_frame: "check_tool_available w tool s = (b, s') \<Longrightarrow> frame s s'"
  by (auto simp: check_tool_available_def frame_def checked_paths_append split: if_splits)

lemma extract_gzip_frame: "extract_gzip w p s = (r, s') \<Longrightarrow> frame s s'"
  by (auto simp: extract_gzip_def Let_def frame_def checked_paths_append
      split: prod.splits sum.splits option.splits)

lemma extract_tar_frame: "extract_tar w p d s = (r, s') \<Longrightarrow> frame s s'"
  by (auto simp: extract_tar_def Let_def frame_def checked_paths_append
      split: prod.splits sum.splits option.splits)

lemma squashfs_tools_frame: "squashfs_tools w sd p tools s = (r, s') \<Longrightarrow> frame s s'"
proof (induction tools arbitrary: s)
  case Nil
  then show ?case by simp
next
  case (Cons tool tools)
  obtain b s1 where c: "check_tool_available w tool s = (b, s1)" by fastforce
  then have f1: "frame s s1" by (rule check_tool_available_frame)
  show ?case
  proof (cases b)
    case False
    with Cons.prems c have "squashfs_tools w sd p tools s1 = (r, s')" by simp
    then have "frame s1 s'" by (rule Cons.IH)
    with f1 show ?thesis by (rule frame_trans)
  next
    case True
    define cmd where
      "cmd = (if tool = ''unsquashfs'' then unsquashfs_cmd sd p else sasquatch_cmd sd p)"
    obtain res s2 where rc: "run_cmd w cmd False None s1 = (res, s2)" by fastforce
    then have f2: "frame s1 s2" by (rule run_cmd_frame)
    show ?thesis
    proof (cases "succeeded res")
      case True
      with Cons.prems c \<open>b\<close> rc have "s' = say (InfoSquashfsOk tool) s2"
        by (simp add: cmd_def)
      then show ?thesis using f1 f2 by (auto intro: frame_trans frame_say)
    next
      case False
      with Cons.prems c \<open>b\<close> rc
      have "squashfs_tools w sd p tools (say (WarnToolFailed tool) s2) = (r, s')"
        by (simp add: cmd_def)
      then have "frame (say (WarnToolFailed tool) s2) s'" by (rule Cons.IH)
      moreover have "frame s (say (WarnToolFailed tool) s2)"
        using f1 f2 by (auto intro: frame_trans frame_say)
      ultimately show ?thesis by (auto intro: frame_trans)
    qed
  qed
qed

lemma extract_squashfs_frame: "extract_squashfs w p d s = (r, s') \<Longrightarrow> frame s s'"
  by (auto simp: extract_squashfs_def Let_def frame_def checked_paths_append
      simp del: squashfs_tools.simps
      split: prod.splits sum.splits option.splits dest!: squashfs_tools_frame)

lemma extract_jffs2_frame: "extract_jffs2 w p d s = (r, s') \<Longrightarrow> frame s s'"
  by (auto simp: extract_jffs2_def Let_def frame_def checked_paths_append
      split: prod.splits sum.splits option.splits bool.splits if_splits
      dest!: check_tool_available_frame run_cmd_frame)

lemma extract_cpio_frame: "extract_cpio w p d s = (r, s') \<Longrightarrow> frame s s'"
  by (auto simp: extract_cpio_def Let_def frame_def checked_paths_append
      split: prod.splits sum.splits option.splits bool.splits if_splits
      dest!: run_cmd_frame)

lemma dispatch_frame: "dispatch w sig p d s = (r, s') \<Longrightarrow> frame s s'"
  by (cases sig)
     (auto simp: dispatch_def split: prod.splits
       dest: extract_gzip_frame extract_tar_frame extract_squashfs_frame
         extract_jffs2_frame extract_cpio_frame)

lemma extract_nested_archives_trace:
  assumes "extract_nested_archives w p d s = (r, s')"
  shows "visits s' = visits s"
    and "checked_paths (printed s') = checked_paths (printed s) @ [p]"
  using assms
  by (auto simp: extract_nested_archives_def Let_def frame_def checked_paths_append
      split: prod.splits if_splits dest!: dispatch_frame run_cmd_frame)

section \<open>The trace of the recursion\<close>

lemma trace_ok_refl: "trace_ok N d s s"
  by (simp add: trace_ok_def)

lemma trace_ok_trans: "trace_ok N d s s1 \<Longrightarrow> trace_ok N d s1 s2 \<Longrightarrow> trace_ok N d s s2"
  unfolding trace_ok_def
  apply (elim exE conjE)
  subgoal for new1 new2
    by (rule exI[of _ "new1 @ new2"]) auto
  done

lemma trace_ok_deeper: "trace_ok N (Suc d) s s' \<Longrightarrow> trace_ok N d s s'"
  unfolding trace_ok_def list_all_iff by (elim exE conjE, rule exI) fastforce

lemma trace_ok_visit:
  assumes "extract_nested_archives w p e (s\<lparr>visits := visits s @ [(d, p)]\<rparr>) = (r, s1)"
    and "d < N" and "\<not> any_in markers (path_str p)"
  shows "trace_ok N d s s1"
  using extract_nested_archives_trace[OF assms(1)] assms(2,3)
  unfolding trace_ok_def by (intro exI[of _ "[(d, p)]"]) simp

lemma recursive_extract_trace:
  "recursive_extract w dir N d s = (r, s') \<Longrightarrow> trace_ok N d s s'"
  "d < N \<Longrightarrow> extract_loop w N d ps acc s = (rb, s') \<Longrightarrow> trace_ok N d s s'"
proof (induction w dir N d s and w N d ps acc s arbitrary: r s' and rb s'
    rule: recursive_extract_extract_loop.induct)
  case (1 w directory max_depth current_depth s)
  show ?case
  proof (cases "max_depth \<le> current_depth")
    case True
    with "1.prems" show ?thesis by (simp add: trace_ok_refl)
  next
    case False
    obtain rb sb where
      l: "extract_loop w max_depth current_depth (rglob w (fs s) directory) False s = (rb, sb)"
      by fastforce
    from False have "current_depth < max_depth" by simp
    from "1.IH"[OF False this l] have "trace_ok max_depth current_depth s sb" .
    moreover from "1.prems" False l have "s' = sb" by (auto split: result.splits)
    ultimately show ?thesis by simp
  qed
next
  case (2 w max_depth current_depth extracted_anything s)
  then show ?case by (simp add: trace_ok_refl)
next
  case (3 w max_depth current_depth file_path rest extracted_anything s)
  show ?case
  proof (cases "is_file (fs s) file_path")
    case False
    with "3.prems" "3.IH"(5) show ?thesis by simp
  next
    case isf: True
    show ?thesis
    proof (cases "any_in markers (path_str file_path)")
      case True
      with isf "3.prems" "3.IH"(1) show ?thesis by simp
    next
      case nm: False
      let ?s0 = "s\<lparr>visits := visits s @ [(current_depth, file_path)]\<rparr>"
      obtain r1 s1 where
        e: "extract_nested_archives w file_path (parent file_path) ?s0 = (r1, s1)"
        by fastforce
      have t1: "trace_ok max_depth current_depth s s1"
        using trace_ok_visit[OF e "3.prems"(1) nm] .
      show ?thesis
      proof (cases r1)
        case (Raise x)
        with isf nm e "3.prems" have "s' = s1" by simp
        with t1 show ?thesis by simp
      next
        case (Ok res)
        show ?thesis
        proof (cases res)
          case None
          with Ok isf nm e "3.prems"
          have "extract_loop w max_depth current_depth rest extracted_anything s1 = (rb, s')"
            by simp
          from "3.IH"(2)[OF isf nm e[symmetric] Ok None "3.prems"(1) this] t1
          show ?thesis by (auto intro: trace_ok_trans)
        next
          case (Some result)
          obtain r2 s2 where
            rr: "recursive_extract w result max_depth (current_depth + 1) s1 = (r2, s2)"
            by fastforce
          from "3.IH"(3)[OF isf nm e[symmetric] Ok Some rr]
          have "trace_ok max_depth (Suc current_depth) s1 s2" by simp
          then have t2: "trace_ok max_depth current_depth s s2"
            using t1 by (auto intro: trace_ok_trans trace_ok_deeper)
          show ?thesis
          proof (cases r2)
            case (Raise x)
            with Ok Some isf nm e rr "3.prems" have "s' = s2" by simp
            with t2 show ?thesis by simp
          next
            case ok2: (Ok b2)
            with Ok Some isf nm e rr "3.prems"
            have "extract_loop w max_depth current_depth rest True s2 = (rb, s')" by simp
            from "3.IH"(4)[OF isf nm e[symmetric] Ok Some rr[symmetric] ok2 "3.prems"(1) this] t2
            show ?thesis by (auto intro: trace_ok_trans)
          qed
        qed
      qed
    qed
  qed
qed

section \<open>Classifier and dispatch\<close>

lemma extract_nested_archives_decomp:
  "extract_nested_archives w p d s = dispatch w (classify w (fs s) p) p d (inspected w p s)"
proof -
  obtain res t where sp: "subprocess_run w (file_cmd p) None (fs s) = (res, t)"
    by fastforce
  show ?thesis
  proof (cases "returncode res = 0")
    case True
    with sp show ?thesis
      by (simp add: extract_nested_archives_def run_cmd_def classify_def inspected_def
          Let_def succeeded_def)
  next
    case False
    with sp show ?thesis
      by (simp add: extract_nested_archives_def run_cmd_def classify_def inspected_def
          Let_def succeeded_def dispatch_def)
  qed
qed

lemma fs_inspected: "fs (inspected w p s) = after_inspection w (fs s) p"
  by (simp add: inspected_def after_inspection_def Let_def split: prod.splits)

lemma resolve_unfold:
  "resolve t p = (case node_at t p of Some (Symlink q) \<Rightarrow> follow t 40 q | _ \<Rightarrow> Some p)"
  unfolding resolve_def by (rule follow.simps(2))


lemma node_at_root [simp]: "node_at t [] = Some Dir"
  by (simp add: node_at_def)

lemma node_at_proper: "proper p \<Longrightarrow> node_at t p = t p"
  by (cases p rule: rev_cases) (simp_all add: proper_def node_at_def)

lemma node_at_dot:
  "dot_name n \<Longrightarrow> node_at t (p @ [n]) = (case node_at t p of Some Dir \<Rightarrow> Some Dir | _ \<Rightarrow> None)"
  by (simp add: node_at_def)

lemma node_at_entry:
  assumes "node_at t p = Some n" "n \<noteq> Dir"
  shows "proper p \<and> t p = Some n"
proof (cases p rule: rev_cases)
  case Nil
  with assms show ?thesis by simp
next
  case (snoc ys y)
  show ?thesis
  proof (cases "dot_name y")
    case True
    with assms snoc show ?thesis
      by (auto simp: node_at_dot split: option.splits node.splits)
  next
    case False
    with snoc have "proper p" by (simp add: proper_def)
    with assms show ?thesis by (simp add: node_at_proper)
  qed
qed






section \<open>Suffixes and the gzip branch\<close>












section \<open>The scanner and the cleanup\<close>





lemma is_file_regular: "\<not> is_symlink t i \<Longrightarrow> is_file t i = is_regular t i"
  by (auto simp: is_symlink_def is_file_def is_regular_def stat_def resolve_unfold
      split: option.splits node.splits)

lemma cleanup_step:
  assumes "proper item" "fs s item \<noteq> None" "removable (fs s) item"
  shows "\<exists>s1. cleanup_loop (item # items) s = cleanup_loop items s1
     \<and> (conflicting (fs s) item \<longrightarrow> fs s1 item = None)
     \<and> (\<forall>q. \<not> prefix item q \<longrightarrow> fs s1 q = fs s q)"
proof (cases "is_symlink (fs s) item \<or> endswith (path_name item) ''.rar''
    \<or> endswith (path_name item) ''.bin''")
  case False
  then have "cleanup_loop (item # items) s = cleanup_loop items s" by simp
  moreover from False have "\<not> conflicting (fs s) item" by (auto simp: conflicting_def)
  ultimately show ?thesis by blast
next
  case c: True
  let ?s1 = "say (InfoRemoving item) s"
  show ?thesis
  proof (cases "is_symlink (fs s) item \<or> is_file (fs s) item")
    case True
    with c have "cleanup_loop (item # items) s
        = cleanup_loop items (?s1\<lparr>fs := unlink (fs ?s1) item\<rparr>)"
      by (auto simp: Let_def)
    moreover have "fs (?s1\<lparr>fs := unlink (fs ?s1) item\<rparr>) item = None"
      by (simp add: unlink_def)
    moreover have "\<forall>q. \<not> prefix item q \<longrightarrow> fs (?s1\<lparr>fs := unlink (fs ?s1) item\<rparr>) q = fs s q"
      by (auto simp: unlink_def)
    ultimately show ?thesis by blast
  next
    case False
    then have nr: "\<not> is_regular (fs s) item" "\<not> is_symlink (fs s) item"
      using is_file_regular by auto
    from c nr(2) assms(3) have "fs s item \<noteq> Some Special"
      by (auto simp: removable_def)
    with nr assms(1,2) have d: "node_at (fs s) item = Some Dir"
      by (auto simp: is_regular_def is_symlink_def node_at_proper
          split: option.splits node.splits)
    let ?t = "\<lambda>q. if prefix item q then None else fs s q"
    from d have rm: "rmtree (fs ?s1) item = Inr ?t" by (simp add: rmtree_def)
    with c False have "cleanup_loop (item # items) s = cleanup_loop items (?s1\<lparr>fs := ?t\<rparr>)"
      by (auto simp: Let_def)
    moreover have "fs (?s1\<lparr>fs := ?t\<rparr>) item = None" by simp
    moreover have "\<forall>q. \<not> prefix item q \<longrightarrow> fs (?s1\<lparr>fs := ?t\<rparr>) q = fs s q" by simp
    ultimately show ?thesis by blast
  qed
qed

lemma conflicting_cong: "proper i \<Longrightarrow> t' i = t i \<Longrightarrow> conflicting t' i = conflicting t i"
  by (simp add: conflicting_def is_symlink_def is_regular_def node_at_proper)

lemma conflicting_entry: "conflicting t p \<Longrightarrow> proper p \<and> t p \<noteq> None"
  by (auto simp: conflicting_def is_symlink_def is_regular_def
      split: option.splits node.splits dest!: node_at_entry)

lemma cleanup_loop_spec:
  assumes "distinct items"
    and "\<forall>i \<in> set items. proper i \<and> fs s i \<noteq> None \<and> removable (fs s) i"
    and "\<forall>i \<in> set items. \<forall>j \<in> set items. prefix i j \<longrightarrow> i = j"
  shows "\<exists>s'. cleanup_loop items s = (Ok (), s')
     \<and> (\<forall>i \<in> set items. conflicting (fs s) i \<longrightarrow> fs s' i = None)
     \<and> (\<forall>q. (\<forall>i \<in> set items. \<not> prefix i q) \<longrightarrow> fs s' q = fs s q)"
  using assms
proof (induction items arbitrary: s)
  case Nil
  then show ?case by simp
next
  case (Cons a rest)
  from Cons.prems have a: "proper a" "fs s a \<noteq> None" "removable (fs s) a" by simp_all
  from cleanup_step[OF a, of rest] obtain s1 where
    s1: "cleanup_loop (a # rest) s = cleanup_loop rest s1"
      "conflicting (fs s) a \<longrightarrow> fs s1 a = None"
      "\<forall>q. \<not> prefix a q \<longrightarrow> fs s1 q = fs s q"
    by blast
  have apart: "\<forall>i \<in> set rest. \<not> prefix a i \<and> \<not> prefix i a"
    using Cons.prems(1,3) by auto
  then have same: "\<forall>i \<in> set rest. fs s1 i = fs s i" using s1(3) by blast
  have "\<exists>s'. cleanup_loop rest s1 = (Ok (), s')
     \<and> (\<forall>i \<in> set rest. conflicting (fs s1) i \<longrightarrow> fs s' i = None)
     \<and> (\<forall>q. (\<forall>i \<in> set rest. \<not> prefix i q) \<longrightarrow> fs s' q = fs s1 q)"
  proof (rule Cons.IH)
    show "distinct rest" using Cons.prems(1) by simp
    show "\<forall>i \<in> set rest. proper i \<and> fs s1 i \<noteq> None \<and> removable (fs s1) i"
      using Cons.prems(2) same by (simp add: removable_def)
    show "\<forall>i \<in> set rest. \<forall>j \<in> set rest. prefix i j \<longrightarrow> i = j" using Cons.prems(3) by simp
  qed
  then obtain s' where
    s': "cleanup_loop rest s1 = (Ok (), s')"
      "\<forall>i \<in> set rest. conflicting (fs s1) i \<longrightarrow> fs s' i = None"
      "\<forall>q. (\<forall>i \<in> set rest. \<not> prefix i q) \<longrightarrow> fs s' q = fs s1 q"
    by blast
  have "fs s' a = fs s1 a" using s'(3) apart by blast
  then have g1: "conflicting (fs s) a \<longrightarrow> fs s' a = None" using s1(2) by simp
  have g2: "\<forall>i \<in> set rest. conflicting (fs s) i \<longrightarrow> fs s' i = None"
    using s'(2) same conflicting_cong Cons.prems(2) by (metis list.set_intros(2))
  have g3: "\<forall>q. (\<forall>i \<in> set (a # rest). \<not> prefix i q) \<longrightarrow> fs s' q = fs s q"
    using s'(3) s1(3) by simp
  from s1(1) s'(1) g1 g2 g3 show ?case by auto
qed

lemma siblings_apart:
  assumes "i \<noteq> []" "j \<noteq> []" "parent i = d" "parent j = d" "prefix i j"
  shows "i = j"
proof -
  have "length (butlast i) = length (butlast j)" using assms(3,4) by (simp add: parent_def)
  with assms(1,2) have "length i = length j"
    by (metis length_butlast length_greater_0_conv diff_Suc_1 Suc_pred)
  with assms(5) show ?thesis
    by (auto simp: prefix_def)
qed

section \<open>The recursion controller\<close>

text \<open>
  Claim C1. In every run of the recursive extraction pass, a path that carries an
  extraction marker (its path string contains \<^verbatim>\<open>_squashfs\<close>, \<^verbatim>\<open>_jffs2\<close>, \<^verbatim>\<open>_cpio\<close> or
  \<^verbatim>\<open>.extracted\<close>) is skipped by the loop, which goes on with the next path in the same
  state, and none of the paths that the run hands to the classifier and the dispatch
  carries a marker.
\<close>

theorem marked_paths_never_classified:
  "(any_in markers (path_str p) \<longrightarrow>
      extract_loop w max_depth current_depth (p # rest) acc s =
      extract_loop w max_depth current_depth rest acc s)
   \<and> (recursive_extract w directory max_depth current_depth s = (r, s') \<longrightarrow>
        (\<exists>new. checked_paths (printed s') = checked_paths (printed s) @ new
           \<and> (\<forall>q \<in> set new. \<not> any_in markers (path_str q))))"
proof (intro conjI impI)
  assume "any_in markers (path_str p)"
  then show "extract_loop w max_depth current_depth (p # rest) acc s =
      extract_loop w max_depth current_depth rest acc s"
    by simp
next
  assume "recursive_extract w directory max_depth current_depth s = (r, s')"
  then have "trace_ok max_depth current_depth s s'"
    by (rule recursive_extract_trace(1))
  then obtain new where
    n: "checked_paths (printed s') = checked_paths (printed s) @ map snd new"
      "list_all (\<lambda>(k, p). current_depth \<le> k \<and> k < max_depth
          \<and> \<not> any_in markers (path_str p)) new"
    unfolding trace_ok_def by blast
  from n(2) have "\<forall>q \<in> set (map snd new). \<not> any_in markers (path_str q)"
    by (auto simp: list_all_iff)
  with n(1) show "\<exists>new. checked_paths (printed s') = checked_paths (printed s) @ new
      \<and> (\<forall>q \<in> set new. \<not> any_in markers (path_str q))"
    by blast
qed

theorem marked_paths_never_classified_witness:
  "any_in markers (path_str [''r'', ''x_squashfs'', ''b.gz''])
   \<and> is_file (fs gz_state) [''r'', ''x_squashfs'', ''b.gz'']
   \<and> rglob gz_world (fs gz_state) [''r''] = [[''r'', ''a.gz''], [''r'', ''x_squashfs'', ''b.gz'']]
   \<and> checked_paths (printed (snd (recursive_extract gz_world [''r''] 5 0 gz_state)))
       = [[''r'', ''a.gz'']]
   \<and> list_all (\<lambda>q. \<not> any_in markers (path_str q))
       (checked_paths (printed (snd (recursive_extract gz_world [''r''] 5 0 gz_state))))"
proof -
  let ?run = "recursive_extract gz_world [''r''] 5 0 gz_state"
  have a: "any_in markers (path_str [''r'', ''x_squashfs'', ''b.gz''])"
    by code_simp
  have b: "is_file (fs gz_state) [''r'', ''x_squashfs'', ''b.gz'']"
    by code_simp
  have c: "rglob gz_world (fs gz_state) [''r'']
      = [[''r'', ''a.gz''], [''r'', ''x_squashfs'', ''b.gz'']]"
    by (simp add: gz_world_def)
  have d: "checked_paths (printed (snd ?run)) = [[''r'', ''a.gz'']]"
    by code_simp
  have "?run = (fst ?run, snd ?run)" by simp
  with marked_paths_never_classified[where w = gz_world and directory = "[''r'']"
      and max_depth = 5 and current_depth = 0 and s = gz_state
      and r = "fst ?run" and s' = "snd ?run"]
  obtain new where
    n: "checked_paths (printed (snd ?run)) = checked_paths (printed gz_state) @ new"
      "\<forall>q \<in> set new. \<not> any_in markers (path_str q)"
    by blast
  have "checked_paths (printed gz_state) = []" by (simp add: gz_state_def)
  with n have e: "list_all (\<lambda>q. \<not> any_in markers (path_str q))
      (checked_paths (printed (snd ?run)))"
    by (simp add: list_all_iff)
  from a b c d e show ?thesis by blast
qed

text \<open>
  Claim C2. With maximum depth N, a call of the recursion controller whose current depth
  has reached N returns at once and leaves the state as it is (nothing is classified,
  dispatched or recursed into), and every node that a call visits is visited at a depth
  from the depth of the call up to but never N.
\<close>

theorem depth_never_exceeds_bound:
  "(max_depth \<le> current_depth \<longrightarrow>
      recursive_extract w directory max_depth current_depth s = (Ok None, s))
   \<and> (recursive_extract w directory max_depth current_depth s = (r, s') \<longrightarrow>
        (\<exists>new. visits s' = visits s @ new
           \<and> (\<forall>(k, p) \<in> set new. current_depth \<le> k \<and> k < max_depth)))"
proof (intro conjI impI)
  assume "max_depth \<le> current_depth"
  then show "recursive_extract w directory max_depth current_depth s = (Ok None, s)"
    by simp
next
  assume "recursive_extract w directory max_depth current_depth s = (r, s')"
  then have "trace_ok max_depth current_depth s s'"
    by (rule recursive_extract_trace(1))
  then show "\<exists>new. visits s' = visits s @ new
      \<and> (\<forall>(k, p) \<in> set new. current_depth \<le> k \<and> k < max_depth)"
    unfolding trace_ok_def list_all_iff by fastforce
qed

theorem depth_never_exceeds_bound_witness:
  "recursive_extract tar_world [''r''] 5 5 tar_state = (Ok None, tar_state)
   \<and> visits (snd (recursive_extract tar_world [''r''] 5 0 tar_state))
       = [(0, [''r'', ''a.tar'']), (1, [''r'', ''a.tar'']), (2, [''r'', ''a.tar'']),
          (3, [''r'', ''a.tar'']), (4, [''r'', ''a.tar''])]
   \<and> list_all (\<lambda>(k, p). k < 5) (visits (snd (recursive_extract tar_world [''r''] 5 0 tar_state)))"
proof -
  let ?run = "recursive_extract tar_world [''r''] 5 0 tar_state"
  have a: "recursive_extract tar_world [''r''] 5 5 tar_state = (Ok None, tar_state)"
    using depth_never_exceeds_bound[where max_depth = 5 and current_depth = 5
        and w = tar_world and directory = "[''r'']" and s = tar_state]
    by simp
  have b: "visits (snd ?run)
      = [(0, [''r'', ''a.tar'']), (1, [''r'', ''a.tar'']), (2, [''r'', ''a.tar'']),
         (3, [''r'', ''a.tar'']), (4, [''r'', ''a.tar''])]"
    by code_simp
  have "?run = (fst ?run, snd ?run)" by simp
  with depth_never_exceeds_bound[where max_depth = 5 and current_depth = 0
      and w = tar_world and directory = "[''r'']" and s = tar_state
      and r = "fst ?run" and s' = "snd ?run"]
  obtain new where
    n: "visits (snd ?run) = visits tar_state @ new"
      "\<forall>(k, p) \<in> set new. 0 \<le> k \<and> k < 5"
    by blast
  have "visits tar_state = []" by (simp add: tar_state_def)
  with n have c: "list_all (\<lambda>(k, p). k < 5) (visits (snd ?run))"
    by (auto simp: list_all_iff)
  from a b c show ?thesis by blast
qed

section \<open>The gzip branch\<close>




text \<open>
  Claim C4, where the subdirectory cannot be made. \<^verbatim>\<open>subdir.mkdir(exist_ok=True)\<close> of
  lines 65, 87 and 100 stands outside every \<^verbatim>\<open>try\<close>: a Squashfs-classified
  \<^verbatim>\<open>/r/fw.img\<close> beside a regular file \<^verbatim>\<open>/r/fw_squashfs\<close> makes the dispatch raise
  FileExistsError, and the exception leaves \<^verbatim>\<open>recursive_extract\<close> as well.
\<close>

theorem dispatch_raises_when_subdir_is_a_file:
  "classify sq_world (fs sq_blocked_state) [''r'', ''fw.img''] = Squashfs
   \<and> fst (extract_nested_archives sq_world [''r'', ''fw.img''] [''r''] sq_blocked_state)
       = Raise FileExistsError
   \<and> fst (recursive_extract sq_world [''r''] 5 0 sq_blocked_state) = Raise FileExistsError"
  by code_simp

section \<open>The executable scanner\<close>



section \<open>Extraction dispatch\<close>



text \<open>
  Claim C7. For a file whose format is Unknown (the inspection fails, or its output
  matches no rule) the dispatch does nothing: the outcome is "no extraction performed"
  and the file system is the one that the inspection command left, which is the one
  before the call when that command only reads.
\<close>

theorem unknown_format_no_mutation:
  "dispatch w Unknown p d s0 = (Ok None, s0)
   \<and> (classify w (fs s) p = Unknown \<longrightarrow>
        fst (extract_nested_archives w p d s) = Ok None
        \<and> fs (snd (extract_nested_archives w p d s)) = after_inspection w (fs s) p
        \<and> (inspection_reads_only w \<longrightarrow> fs (snd (extract_nested_archives w p d s)) = fs s))"
proof (intro conjI impI)
  show "dispatch w Unknown p d s0 = (Ok None, s0)"
    by (simp add: dispatch_def)
next
  assume u: "classify w (fs s) p = Unknown"
  then have e: "extract_nested_archives w p d s = (Ok None, inspected w p s)"
    by (simp add: extract_nested_archives_decomp dispatch_def)
  then show "fst (extract_nested_archives w p d s) = Ok None" by simp
  from e show a: "fs (snd (extract_nested_archives w p d s)) = after_inspection w (fs s) p"
    by (simp add: fs_inspected)
  assume "inspection_reads_only w"
  then have "after_inspection w (fs s) p = fs s"
    by (simp add: inspection_reads_only_def after_inspection_def)
  with a show "fs (snd (extract_nested_archives w p d s)) = fs s" by simp
qed

theorem unknown_format_no_mutation_witness:
  "classify data_world (fs data_state) [''r'', ''blob''] = Unknown
   \<and> inspection_reads_only data_world
   \<and> fst (extract_nested_archives data_world [''r'', ''blob''] [''r''] data_state) = Ok None
   \<and> fs (snd (extract_nested_archives data_world [''r'', ''blob''] [''r''] data_state))
       = fs data_state"
proof -
  have a: "classify data_world (fs data_state) [''r'', ''blob''] = Unknown"
    by code_simp
  have b: "inspection_reads_only data_world"
    by (simp add: inspection_reads_only_def data_world_def)
  from unknown_format_no_mutation[where w = data_world and s = data_state
      and p = "[''r'', ''blob'']" and d = "[''r'']"] a b
  show ?thesis by blast
qed

text \<open>
  Claim C8, at the depth bound. A call that is entered at or beyond the bound leaves by
  the bare \<^verbatim>\<open>return\<close> of line 112: its value is None, not a Boolean, while line 129
  returns \<^verbatim>\<open>extracted_anything\<close>.
\<close>

theorem recursive_extract_at_bound_returns_none:
  "recursive_extract w directory max_depth (max_depth + k) s = (Ok None, s)"
  by simp



section \<open>The cleanup of the output directory\<close>

text \<open>
  What \<^verbatim>\<open>cleanup_output_dir\<close> achieves where no special file has a name that line 138
  selects. When the output directory exists or can be made, and its listing is complete,
  the cleanup ends without an exception in a state where every entry of the directory
  that was a symbolic link, or a regular file with a name that ends in \<^verbatim>\<open>.rar\<close> or
  \<^verbatim>\<open>.bin\<close>, is gone; and the rest of the run starts in that state: the check for binwalk,
  which ends the run with exit status 1 in that state when binwalk is missing, and
  otherwise every later step.
\<close>

lemma cleanup_removes_conflicting_entries:
  assumes mk: "mkdir_parents (fs s) out = Inr t1"
    and ls: "listing_ok t1 out (iterdir w t1 out)"
    and rm: "list_all (removable t1) (iterdir w t1 out)"
  shows "\<exists>s2. cleanup_output_dir w out
              ((say (InfoOutputDir out) (say (InfoUnpacking fw) s))\<lparr>fs := t1\<rparr>) = (Ok (), s2)
     \<and> (\<forall>p. parent p = out \<and> conflicting t1 p \<longrightarrow> fs s2 p = None)
     \<and> unpack_firmware w fw out s =
         (if which w ''binwalk'' then unpack_steps w fw out s2
          else (Exited 1, [], say (ErrToolMissing ''binwalk'') s2))"
proof -
  let ?s1 = "(say (InfoOutputDir out) (say (InfoUnpacking fw) s))\<lparr>fs := t1\<rparr>"
  let ?items = "iterdir w t1 out"
  have d: "distinct ?items"
    and e: "\<forall>i \<in> set ?items. proper i \<and> parent i = out \<and> t1 i \<noteq> None"
    and full: "\<forall>p. proper p \<and> parent p = out \<and> t1 p \<noteq> None \<longrightarrow> p \<in> set ?items"
    using ls unfolding listing_ok_def list_all_iff by blast+
  from rm have r: "\<forall>i \<in> set ?items. removable t1 i" by (simp add: list_all_iff)
  have "\<exists>s'. cleanup_loop ?items ?s1 = (Ok (), s')
     \<and> (\<forall>i \<in> set ?items. conflicting (fs ?s1) i \<longrightarrow> fs s' i = None)
     \<and> (\<forall>q. (\<forall>i \<in> set ?items. \<not> prefix i q) \<longrightarrow> fs s' q = fs ?s1 q)"
  proof (rule cleanup_loop_spec)
    show "distinct ?items" by (rule d)
    show "\<forall>i \<in> set ?items. proper i \<and> fs ?s1 i \<noteq> None \<and> removable (fs ?s1) i"
      using e r by simp
    show "\<forall>i \<in> set ?items. \<forall>j \<in> set ?items. prefix i j \<longrightarrow> i = j"
    proof (intro ballI impI)
      fix i j
      assume ij: "i \<in> set ?items" "j \<in> set ?items" and pre: "prefix i j"
      from ij e have "i \<noteq> []" "j \<noteq> []" "parent i = out" "parent j = out"
        by (auto simp: proper_def)
      then show "i = j" using pre by (rule siblings_apart)
    qed
  qed
  then obtain s2 where
    c: "cleanup_loop ?items ?s1 = (Ok (), s2)"
    and g: "\<forall>i \<in> set ?items. conflicting (fs ?s1) i \<longrightarrow> fs s2 i = None"
    by blast
  have c': "cleanup_output_dir w out ?s1 = (Ok (), s2)"
    using c by (simp add: cleanup_output_dir_def)
  have g': "\<forall>p. parent p = out \<and> conflicting t1 p \<longrightarrow> fs s2 p = None"
  proof (intro allI impI)
    fix p
    assume h: "parent p = out \<and> conflicting t1 p"
    then have "proper p \<and> t1 p \<noteq> None" using conflicting_entry by blast
    with h full have "p \<in> set ?items" by blast
    with g h show "fs s2 p = None" by simp
  qed
  have u: "unpack_firmware w fw out s =
         (if which w ''binwalk'' then unpack_steps w fw out s2
          else (Exited 1, [], say (ErrToolMissing ''binwalk'') s2))"
    using mk c' by (simp add: unpack_firmware_def Let_def check_tool_available_def)
  from c' g' u show ?thesis by blast
qed

lemma cleanup_removes_conflicting_entries_example:
  "listing_ok (fs cl_state) [''out''] (iterdir cl_world (fs cl_state) [''out''])
   \<and> fst (unpack_firmware cl_world [''fw.bin''] [''out''] cl_state) = Exited 1
   \<and> fs (snd (snd (unpack_firmware cl_world [''fw.bin''] [''out''] cl_state)))
        [''out'', ''old.bin''] = None
   \<and> fs (snd (snd (unpack_firmware cl_world [''fw.bin''] [''out''] cl_state)))
        [''out'', ''link''] = None
   \<and> fs (snd (snd (unpack_firmware cl_world [''fw.bin''] [''out''] cl_state)))
        [''out'', ''keep.txt''] = Some (File ''k'' False)"
proof -
  let ?run = "unpack_firmware cl_world [''fw.bin''] [''out''] cl_state"
  let ?items = "iterdir cl_world (fs cl_state) [''out'']"
  have mk: "mkdir_parents (fs cl_state) [''out''] = Inr (fs cl_state)"
    by (simp add: mkdir_parents.simps mkdir_exist_ok_def node_at_def is_dir_def stat_def
        resolve_unfold dot_name_def cl_state_def)
  have items: "?items = [[''out'', ''old.bin''], [''out'', ''link''], [''out'', ''keep.txt''],
      [''out'', ''dir.rar'']]"
    by (simp add: cl_world_def)
  have "\<forall>p. proper p \<and> parent p = [''out''] \<and> fs cl_state p \<noteq> None \<longrightarrow> p \<in> set ?items"
    unfolding items by (auto simp: cl_state_def parent_def split: if_splits)
  moreover have "distinct ?items
      \<and> list_all (\<lambda>i. proper i \<and> parent i = [''out''] \<and> fs cl_state i \<noteq> None) ?items"
    unfolding items by (simp add: cl_state_def parent_def proper_def dot_name_def)
  ultimately have ls: "listing_ok (fs cl_state) [''out''] ?items"
    by (simp add: listing_ok_def)
  have rm: "list_all (removable (fs cl_state)) ?items"
    unfolding items by (simp add: removable_def cl_state_def)
  have c1: "conflicting (fs cl_state) [''out'', ''old.bin'']" by code_simp
  have c2: "conflicting (fs cl_state) [''out'', ''link'']" by code_simp
  have nb: "\<not> which cl_world ''binwalk''" by (simp add: cl_world_def)
  from cleanup_removes_conflicting_entries[OF mk ls rm, of "[''fw.bin'']"] nb obtain s2 where
    g: "\<forall>p. parent p = [''out''] \<and> conflicting (fs cl_state) p \<longrightarrow> fs s2 p = None"
    and u: "?run = (Exited 1, [], say (ErrToolMissing ''binwalk'') s2)"
    by auto
  from u have r: "fst ?run = Exited 1" and f: "fs (snd (snd ?run)) = fs s2" by simp_all
  from g c1 c2 have "fs s2 [''out'', ''old.bin''] = None" "fs s2 [''out'', ''link''] = None"
    by (simp_all add: parent_def)
  with f have a: "fs (snd (snd ?run)) [''out'', ''old.bin''] = None"
    and b: "fs (snd (snd ?run)) [''out'', ''link''] = None"
    by simp_all
  have k: "fs (snd (snd ?run)) [''out'', ''keep.txt''] = Some (File ''k'' False)"
    by code_simp
  from ls r a b k show ?thesis by blast
qed

text \<open>
  Claim C10, at an output directory that holds a FIFO \<^verbatim>\<open>pipe.bin\<close>, listed first, a
  symbolic link and an old firmware image. Line 138 selects the FIFO by its name, it is
  neither a link nor a file, and \<^verbatim>\<open>shutil.rmtree\<close> of line 145 raises on it. The
  exception leaves \<^verbatim>\<open>cleanup_output_dir\<close> and \<^verbatim>\<open>unpack_firmware\<close>: the run ends before
  the check for binwalk (which is missing here, and would end it with exit status 1),
  and the link and the image are still there.
\<close>

theorem cleanup_aborts_on_special_file:
  "\<not> which fifo_world ''binwalk''
   \<and> fst (unpack_firmware fifo_world [''fw.bin''] [''out''] fifo_state)
       = Raised NotADirectoryError
   \<and> printed (snd (snd (unpack_firmware fifo_world [''fw.bin''] [''out''] fifo_state)))
       = [InfoUnpacking [''fw.bin''], InfoOutputDir [''out''],
          InfoRemoving [''out'', ''pipe.bin'']]
   \<and> is_symlink (fs (snd (snd (unpack_firmware fifo_world [''fw.bin''] [''out''] fifo_state))))
        [''out'', ''link'']
   \<and> fs (snd (snd (unpack_firmware fifo_world [''fw.bin''] [''out''] fifo_state)))
        [''out'', ''old.bin''] = Some (File ''fw'' False)"
  by code_simp

end
